theory Spec2Isabelle
  imports Main
begin

section \<open>JavaScript strings\<close>

text \<open>
  A JavaScript string is a sequence of UTF-16 code units. The embedding works on the
  code units 0..255 (ASCII and Latin-1), for which \<open>char\<close> has exactly one value each;
  the character classes and the case mapping below are ECMAScript's, restricted to
  that range. Within the range \<open>toLowerCase()\<close> maps every code unit on its own. Beyond
  it the built-in depends on the context (a capital sigma at the end of a word becomes
  a final sigma), so what is proved here about letter case is proved for strings of the
  range and for no others.
\<close>

definition isSpace :: "char \<Rightarrow> bool" where
  \<comment> \<open>the class \<open>\s\<close> of a regular expression, which is also what \<open>trim()\<close> strips:
      TAB, LF, VT, FF, CR, SPACE and NO-BREAK SPACE\<close>
  "isSpace c = (c = CHR 0x09 \<or> c = CHR 0x0A \<or> c = CHR 0x0B \<or> c = CHR 0x0C \<or> c = CHR 0x0D
     \<or> c = CHR '' '' \<or> c = CHR 0xA0)"

definition isAlnum :: "char \<Rightarrow> bool" where
  \<comment> \<open>the class \<open>[a-zA-Z0-9]\<close>\<close>
  "isAlnum c = (let n = (of_char c :: nat) in
     (48 \<le> n \<and> n \<le> 57) \<or> (65 \<le> n \<and> n \<le> 90) \<or> (97 \<le> n \<and> n \<le> 122))"

definition isWordChar :: "char \<Rightarrow> bool" where
  \<comment> \<open>the class \<open>\w\<close>, that is \<open>[A-Za-z0-9_]\<close>\<close>
  "isWordChar c = (isAlnum c \<or> c = CHR ''_'')"

definition isTagChar :: "char \<Rightarrow> bool" where
  \<comment> \<open>the class \<open>[\w-]\<close>\<close>
  "isTagChar c = (isWordChar c \<or> c = CHR ''-'')"

definition isUpper :: "char \<Rightarrow> bool" where
  \<comment> \<open>the code units below 256 that \<open>toLowerCase\<close> changes: A-Z, and U+00C0..U+00DE
      without the multiplication sign U+00D7\<close>
  "isUpper c = (let n = (of_char c :: nat) in
     (65 \<le> n \<and> n \<le> 90) \<or> (192 \<le> n \<and> n \<le> 222 \<and> n \<noteq> 215))"

definition lowerChar :: "char \<Rightarrow> char" where
  "lowerChar c = (if isUpper c then char_of ((of_char c :: nat) + 32) else c)"

definition toLowerCase :: "string \<Rightarrow> string" where
  \<comment> \<open>\<open>s.toLowerCase()\<close> of a string of code units 0..255\<close>
  "toLowerCase s = map lowerChar s"

definition trim :: "string \<Rightarrow> string" where
  "trim s = rev (dropWhile isSpace (rev (dropWhile isSpace s)))"

definition substring0 :: "nat \<Rightarrow> string \<Rightarrow> string" where
  \<comment> \<open>\<open>s.substring(0, n)\<close>\<close>
  "substring0 n s = take n s"

definition endsWith :: "string \<Rightarrow> string \<Rightarrow> bool" where
  "endsWith suffix s = (length suffix \<le> length s \<and> drop (length s - length suffix) s = suffix)"

definition join :: "string \<Rightarrow> string list \<Rightarrow> string" where
  \<comment> \<open>\<open>xs.join(sep)\<close>\<close>
  "join sep xs = (case xs of [] \<Rightarrow> [] | y # ys \<Rightarrow> y @ concat (map (\<lambda>z. sep @ z) ys))"

abbreviation backslash :: char where
  "backslash \<equiv> CHR 0x5C"

abbreviation newline :: char where
  "newline \<equiv> CHR 0x0A"

subsection \<open>Global regular-expression replacements\<close>

text \<open>
  \<open>String.prototype.replace\<close> with a global pattern scans from left to right, replaces
  every match and resumes directly after it. Each pattern the program uses gets its own
  scanner.
\<close>

definition replaceSlash :: "string \<Rightarrow> string \<Rightarrow> string" where
  \<comment> \<open>\<open>s.replace(/\//g, sub)\<close>\<close>
  "replaceSlash sub s = concat (map (\<lambda>c. if c = CHR ''/'' then sub else [c]) s)"

fun replaceDash :: "string \<Rightarrow> string \<Rightarrow> string" where
  \<comment> \<open>\<open>s.replace(/ - /g, sub)\<close>\<close>
  "replaceDash sub (a # b # c # rest) =
     (if a = CHR '' '' \<and> b = CHR ''-'' \<and> c = CHR '' ''
      then sub @ replaceDash sub rest
      else a # replaceDash sub (b # c # rest))"
| "replaceDash sub s = s"

lemma length_dropWhile_less [termination_simp]:
  "length (dropWhile P xs) < Suc (length xs)"
  by (simp add: le_imp_less_Suc length_dropWhile_le)

fun replaceSpaces :: "string \<Rightarrow> string" where
  \<comment> \<open>\<open>s.replace(/\s+/g, "-")\<close>: a maximal run of white space becomes one hyphen\<close>
  "replaceSpaces [] = []"
| "replaceSpaces (c # cs) =
     (if isSpace c then CHR ''-'' # replaceSpaces (dropWhile isSpace cs)
      else c # replaceSpaces cs)"

fun collapseHyphens :: "string \<Rightarrow> string" where
  \<comment> \<open>\<open>s.replace(/-+/g, "-")\<close>\<close>
  "collapseHyphens [] = []"
| "collapseHyphens (c # cs) =
     (if c = CHR ''-'' then CHR ''-'' # collapseHyphens (dropWhile (\<lambda>d. d = CHR ''-'') cs)
      else c # collapseHyphens cs)"

section \<open>Note records (src/types.ts)\<close>

record KeepLabel =
  name :: string

record KeepAttachment =
  filePath :: string
  mimetype :: "string option"

record KeepNote =
  title :: "string option"
  createdTimestampUsec :: "string option"
  labels :: "KeepLabel list option"
  attachments :: "KeepAttachment list option"

section \<open>Labels to tags\<close>

text \<open>
  The callback of \<open>generateMarkdown\<close> (YAML front matter, keep-to-bear.js lines 935-944)
  that maps a label name to its tag path. The source fixes
  \<open>tagPrefix = "06-google-keep/"\<close>; the prefix is a parameter here.
\<close>

definition labelTag :: "string \<Rightarrow> string \<Rightarrow> string" where
  "labelTag tagPrefix nm =
     tagPrefix @ toLowerCase (replaceSpaces (replaceDash ''/'' (replaceSlash '' & '' nm)))"

definition tagPrefix :: string where
  "tagPrefix = ''06-google-keep/''"

definition labelNames :: "KeepNote \<Rightarrow> string list" where
  \<comment> \<open>\<open>labels.map(label => label.name).filter(name => Boolean(name && name.trim()))\<close>\<close>
  "labelNames n =
     (case labels n of None \<Rightarrow> []
      | Some ls \<Rightarrow> if length ls > 0 then filter (\<lambda>nm. nm \<noteq> [] \<and> trim nm \<noteq> []) (map name ls) else [])"

definition yamlTags :: "KeepNote \<Rightarrow> string list" where
  "yamlTags n = ''06-google-keep'' # map (labelTag tagPrefix) (labelNames n)"

text \<open>
  The callback of \<open>generateHashtags\<close> (inline hashtags under the title, lines 518-539).
\<close>

definition labelHashtag :: "string \<Rightarrow> string" where
  "labelHashtag nm =
     CHR ''#'' # toLowerCase (replaceSpaces (replaceDash ''-'' (replaceSlash '' and '' nm)))"

definition generateHashtags :: "KeepNote \<Rightarrow> string list" where
  "generateHashtags n = ''#06-google-keep'' # map labelHashtag (labelNames n)"

section \<open>Escaping hashtags that are not labels\<close>

text \<open>\<open>escapeInvalidHashtags\<close> (lines 478-498) and the pattern it replaces.\<close>

fun replaceHashtags :: "(string \<Rightarrow> string) \<Rightarrow> string \<Rightarrow> string" where
  \<comment> \<open>\<open>content.replace(/#[\w-]+/g, f)\<close>: at a \<open>#\<close> followed by at least one character of
      \<open>[\w-]\<close> the match is the \<open>#\<close> and the longest such run; scanning resumes after it\<close>
  "replaceHashtags f [] = []"
| "replaceHashtags f (c # cs) =
     (if c = CHR ''#'' \<and> takeWhile isTagChar cs \<noteq> []
      then f (c # takeWhile isTagChar cs) @ replaceHashtags f (dropWhile isTagChar cs)
      else c # replaceHashtags f cs)"

definition labelAsHashtag :: "string \<Rightarrow> string" where
  \<comment> \<open>\<open>label.replace(/[^a-zA-Z0-9\s-]/g, "").replace(/\s+/g, "-").replace(/-+/g, "-").toLowerCase()\<close>\<close>
  "labelAsHashtag label =
     toLowerCase (collapseHyphens (replaceSpaces
       (filter (\<lambda>c. isAlnum c \<or> isSpace c \<or> c = CHR ''-'') label)))"

definition isValidLabel :: "string list \<Rightarrow> string \<Rightarrow> bool" where
  \<comment> \<open>\<open>Array.from(this.validLabels).some(label => labelAsHashtag === hashtag.toLowerCase())\<close>;
      the set \<open>validLabels\<close> is given as the list of its elements\<close>
  "isValidLabel validLabels hashtag =
     list_ex (\<lambda>label. labelAsHashtag label = toLowerCase hashtag) validLabels"

definition escapeMatch :: "string list \<Rightarrow> string \<Rightarrow> string" where
  \<comment> \<open>the replacement callback: \<open>hashtag = match.slice(1)\<close>\<close>
  "escapeMatch validLabels match =
     (if isValidLabel validLabels (drop 1 match) then match else backslash # match)"

definition escapeInvalidHashtags :: "string list \<Rightarrow> string \<Rightarrow> string" where
  "escapeInvalidHashtags validLabels content = replaceHashtags (escapeMatch validLabels) content"

text \<open>
  \<open>htmlToMarkdown\<close> of the Turndown variant (lines 500-516). The conversion \<open>turndownService.turndown\<close>
  belongs to a library outside the repository and is a parameter.
\<close>

definition htmlToMarkdown :: "(string \<Rightarrow> string) \<Rightarrow> string list \<Rightarrow> string \<Rightarrow> string" where
  "htmlToMarkdown turndown validLabels htmlContent =
     (let markdown = trim (turndown htmlContent)
      in escapeInvalidHashtags validLabels markdown)"

text \<open>
  The callback that describes two passes of the escaper at once: a match that is not a
  label gets two backslashes.
\<close>

definition escapeTwice :: "string list \<Rightarrow> string \<Rightarrow> string" where
  "escapeTwice validLabels match =
     (if isValidLabel validLabels (drop 1 match) then match else backslash # backslash # match)"

text \<open>
  Two readings of a text, used to state what the escaper guarantees: whether the pattern
  \<open>#[\w-]+\<close> matches anywhere, and the matches that no backslash directly precedes.
\<close>

fun hasHashtag :: "string \<Rightarrow> bool" where
  "hasHashtag (c # d # cs) = ((c = CHR ''#'' \<and> isTagChar d) \<or> hasHashtag (d # cs))"
| "hasHashtag s = False"

fun liveHashtags :: "bool \<Rightarrow> string \<Rightarrow> string list" where
  \<comment> \<open>the flag says whether the character before the text is a backslash\<close>
  "liveHashtags esc [] = []"
| "liveHashtags esc (c # cs) =
     (if c = CHR ''#'' \<and> takeWhile isTagChar cs \<noteq> []
      then (if esc then [] else [c # takeWhile isTagChar cs])
           @ liveHashtags False (dropWhile isTagChar cs)
      else liveHashtags (c = backslash) cs)"

section \<open>Dates\<close>

text \<open>
  The program reads the creation time with \<open>new Date(parseInt(createdTimestampUsec) / 1000)\<close>
  and prints it with \<open>toISOString()\<close>, \<open>getHours()\<close> and \<open>getMinutes()\<close>. These are
  built-ins of the language; they are written out here after ECMA-262, over the integers.
  The source computes in IEEE doubles; the truncated quotient it gets is the integer one
  as long as the parsed number is below \<open>2^53\<close> in magnitude (timestamps up to the year
  2255).
\<close>

datatype error = RangeError
  \<comment> \<open>\<open>toISOString()\<close> of an invalid date throws \<open>RangeError: Invalid time value\<close>\<close>

definition isRadixDigit :: "int \<Rightarrow> char \<Rightarrow> bool" where
  "isRadixDigit radix c = (let n = (of_char c :: nat) in
     (48 \<le> n \<and> n \<le> 57) \<or>
     (radix = 16 \<and> ((65 \<le> n \<and> n \<le> 70) \<or> (97 \<le> n \<and> n \<le> 102))))"

definition digitValue :: "char \<Rightarrow> int" where
  "digitValue c = (let n = (of_char c :: int) in
     if n \<le> 57 then n - 48 else if n \<le> 70 then n - 55 else n - 87)"

definition parseInt :: "string \<Rightarrow> int option" where
  \<comment> \<open>\<open>parseInt(s)\<close> without a radix; \<open>None\<close> is \<open>NaN\<close>. Leading white space is skipped,
      a sign and a \<open>0x\<close> prefix are read, and the digits up to the first other character
      are the number.\<close>
  "parseInt s =
     (let s1 = dropWhile isSpace s;
          negative = (take 1 s1 = ''-'');
          s2 = (if take 1 s1 = ''+'' \<or> take 1 s1 = ''-'' then drop 1 s1 else s1);
          hex = (take 2 s2 = ''0x'' \<or> take 2 s2 = ''0X'');
          radix = (if hex then 16 else 10);
          s3 = (if hex then drop 2 s2 else s2);
          z = takeWhile (isRadixDigit radix) s3;
          mathInt = foldl (\<lambda>a c. a * radix + digitValue c) 0 z
      in if z = [] then None
         else Some (if negative then - mathInt else mathInt))"

definition timeValue :: "string \<Rightarrow> int option" where
  \<comment> \<open>the time value (milliseconds since the epoch) of \<open>new Date(parseInt(usec) / 1000)\<close>:
      a quotient beyond 8.64e15 in magnitude, like \<open>NaN\<close>, gives an invalid date (\<open>None\<close>);
      otherwise the quotient is truncated towards zero. Exact integers stand for the
      doubles of the source, which round once the parsed number reaches \<open>2^53\<close>; from
      there on the two may differ in the last digits and at the validity limit.\<close>
  "timeValue usec =
     (case parseInt usec of
        None \<Rightarrow> None
      | Some n \<Rightarrow>
          if \<bar>n\<bar> \<le> 8640000000000000 * 1000 then Some (sgn n * (\<bar>n\<bar> div 1000)) else None)"

definition civilFromDays :: "int \<Rightarrow> int \<times> int \<times> int" where
  \<comment> \<open>year, month and day of the month of a day number (days since 1970-01-01) in the
      proleptic Gregorian calendar\<close>
  "civilFromDays days =
     (let z = days + 719468;
          era = z div 146097;
          doe = z mod 146097;
          yoe = (doe - doe div 1460 + doe div 36524 - doe div 146096) div 365;
          doy = doe - (365 * yoe + yoe div 4 - yoe div 100);
          mp = (5 * doy + 2) div 153;
          d = doy - (153 * mp + 2) div 5 + 1;
          m = (if mp < 10 then mp + 3 else mp - 9);
          y = yoe + era * 400 + (if m \<le> 2 then 1 else 0)
      in (y, m, d))"

definition digitChar :: "int \<Rightarrow> char" where
  "digitChar d = ''0123456789'' ! nat d"

function showDigits :: "int \<Rightarrow> string" where
  "showDigits n = (if n < 10 then [digitChar n]
                   else showDigits (n div 10) @ [digitChar (n mod 10)])"
  by pat_completeness auto
termination
  by (relation "measure nat") auto

declare showDigits.simps [simp del]

definition numberToString :: "int \<Rightarrow> string" where
  \<comment> \<open>\<open>n.toString()\<close> of an integer\<close>
  "numberToString n = (if n < 0 then ''-'' @ showDigits (- n) else showDigits n)"

definition padStart :: "nat \<Rightarrow> char \<Rightarrow> string \<Rightarrow> string" where
  \<comment> \<open>\<open>s.padStart(width, c)\<close>\<close>
  "padStart width c s = replicate (width - length s) c @ s"

definition pad :: "nat \<Rightarrow> int \<Rightarrow> string" where
  "pad width n = padStart width (CHR ''0'') (numberToString n)"

definition isoYear :: "int \<Rightarrow> string" where
  \<comment> \<open>four digits for the years 0 to 9999, otherwise a sign and six digits\<close>
  "isoYear y = (if 0 \<le> y \<and> y \<le> 9999 then pad 4 y
                else (if y < 0 then ''-'' else ''+'') @ pad 6 \<bar>y\<bar>)"

definition toISOString :: "int \<Rightarrow> string" where
  \<comment> \<open>\<open>YYYY-MM-DDTHH:mm:ss.sssZ\<close> of a valid time value, in UTC\<close>
  "toISOString t =
     (let ms = t mod 86400000 in
      case civilFromDays (t div 86400000) of (y, m, d) \<Rightarrow>
        isoYear y @ ''-'' @ pad 2 m @ ''-'' @ pad 2 d @ ''T''
          @ pad 2 (ms div 3600000) @ '':'' @ pad 2 (ms div 60000 mod 60) @ '':''
          @ pad 2 (ms div 1000 mod 60) @ ''.'' @ pad 3 (ms mod 1000) @ ''Z'')"

definition isoDate :: "int \<Rightarrow> string" where
  \<comment> \<open>\<open>toISOString().split("T")[0]\<close>\<close>
  "isoDate t = takeWhile (\<lambda>c. c \<noteq> CHR ''T'') (toISOString t)"

text \<open>
  \<open>getHours()\<close> and \<open>getMinutes()\<close> read the local time of the process. The offset of the
  local time zone from UTC at the instant, in minutes, is a parameter.
\<close>

definition getHours :: "int \<Rightarrow> int \<Rightarrow> int" where
  "getHours tzOffsetMinutes t = (t + tzOffsetMinutes * 60000) div 3600000 mod 24"

definition getMinutes :: "int \<Rightarrow> int \<Rightarrow> int" where
  "getMinutes tzOffsetMinutes t = (t + tzOffsetMinutes * 60000) div 60000 mod 60"

section \<open>Titles, file names and the assembled document\<close>

text \<open>
  \<open>generateDisplayTitle\<close> (lines 541-567 and 896-918, the same text) and
  \<open>generateFileName\<close> (lines 249-269, 616-636 and 990-1010, the same text). A field that
  is absent and one that holds the empty string are both falsy, so each field is read as
  its text, empty when absent.
\<close>

definition titleText :: "KeepNote \<Rightarrow> string" where
  "titleText n = (case title n of None \<Rightarrow> [] | Some s \<Rightarrow> s)"

definition timestampText :: "KeepNote \<Rightarrow> string" where
  "timestampText n = (case createdTimestampUsec n of None \<Rightarrow> [] | Some s \<Rightarrow> s)"

definition hasTitle :: "KeepNote \<Rightarrow> bool" where
  \<comment> \<open>\<open>jsonData.title && jsonData.title.trim()\<close>\<close>
  "hasTitle n = (titleText n \<noteq> [] \<and> trim (titleText n) \<noteq> [])"

definition createdDate :: "KeepNote \<Rightarrow> int option" where
  \<comment> \<open>\<open>new Date(parseInt(jsonData.createdTimestampUsec) / 1000)\<close>\<close>
  "createdDate n = timeValue (timestampText n)"

definition datePrefix :: "KeepNote \<Rightarrow> error + string" where
  "datePrefix n =
     (if timestampText n \<noteq> []
      then (case createdDate n of None \<Rightarrow> Inl RangeError | Some t \<Rightarrow> Inr (isoDate t))
      else Inr ''Unknown Date'')"

definition generateDisplayTitle :: "int \<Rightarrow> KeepNote \<Rightarrow> error + string" where
  "generateDisplayTitle tzOffsetMinutes n =
     (case datePrefix n of
        Inl e \<Rightarrow> Inl e
      | Inr prefix \<Rightarrow>
          if hasTitle n then Inr (prefix @ '' - '' @ trim (titleText n))
          else if timestampText n \<noteq> [] then
            (case createdDate n of
               None \<Rightarrow> Inr (prefix @ ''.NaN.NaN'')
             | Some t \<Rightarrow>
                 (let hours = padStart 2 (CHR ''0'') (numberToString (getHours tzOffsetMinutes t));
                      minutes = padStart 2 (CHR ''0'') (numberToString (getMinutes tzOffsetMinutes t))
                  in Inr (prefix @ ''.'' @ hours @ ''.'' @ minutes)))
          else Inr prefix)"

definition generateFileName :: "KeepNote \<Rightarrow> error + string" where
  "generateFileName n =
     (case (if hasTitle n then
              Inr (toLowerCase (replaceSpaces
                (filter (\<lambda>c. isWordChar c \<or> isSpace c \<or> c = CHR ''-'') (trim (titleText n)))))
            else if timestampText n \<noteq> [] then
              (case createdDate n of
                 None \<Rightarrow> Inl RangeError
               | Some t \<Rightarrow> Inr (isoDate t @ ''-note''))
            else Inr ''untitled-note'') of
        Inl e \<Rightarrow> Inl e
      | Inr fileName \<Rightarrow> Inr (substring0 50 fileName @ ''.md''))"

definition isImage :: "string \<Rightarrow> bool" where
  \<comment> \<open>\<open>/\.(jpg|jpeg|png|gif|bmp|svg|webp)$/i.test(fileName)\<close>\<close>
  "isImage fileName =
     list_ex (\<lambda>ext. endsWith (CHR ''.'' # ext) (toLowerCase fileName))
       [''jpg'', ''jpeg'', ''png'', ''gif'', ''bmp'', ''svg'', ''webp'']"

definition contentSection :: "string \<Rightarrow> string" where
  "contentSection content =
     (if content \<noteq> [] \<and> trim content \<noteq> [] then trim content @ [newline, newline] else [])"

definition attachmentsSection :: "string list \<Rightarrow> string" where
  "attachmentsSection copiedAttachments =
     (if length copiedAttachments > 0
      then ''## Attachments'' @ [newline, newline]
        @ concat (map (\<lambda>fileName.
            if isImage fileName then ''![]('' @ fileName @ '')'' @ [newline, newline]
            else ''['' @ fileName @ '']('' @ fileName @ '')'' @ [newline, newline])
          copiedAttachments)
      else [])"

definition createdComment :: "KeepNote \<Rightarrow> error + string" where
  "createdComment n =
     (if timestampText n \<noteq> []
      then (case createdDate n of
              None \<Rightarrow> Inl RangeError
            | Some t \<Rightarrow> Inr (''<!-- Created: '' @ toISOString t @ '' -->'' @ [newline]))
      else Inr [])"

text \<open>\<open>generateMarkdown\<close> of the variant that writes YAML front matter (lines 920-988).\<close>

definition generateMarkdown :: "int \<Rightarrow> KeepNote \<Rightarrow> string \<Rightarrow> string list \<Rightarrow> error + string" where
  "generateMarkdown tzOffsetMinutes n content copiedAttachments =
     (case generateDisplayTitle tzOffsetMinutes n of
        Inl e \<Rightarrow> Inl e
      | Inr displayTitle \<Rightarrow>
          (case createdComment n of
             Inl e \<Rightarrow> Inl e
           | Inr created \<Rightarrow>
               Inr (trim (''---'' @ [newline] @ ''tags:'' @ [newline]
                 @ concat (map (\<lambda>tag. ''  - '' @ tag @ [newline]) (yamlTags n))
                 @ ''---'' @ [newline, newline]
                 @ ''# '' @ displayTitle @ [newline, newline]
                 @ contentSection content
                 @ attachmentsSection copiedAttachments
                 @ created))))"

text \<open>
  \<open>generateMarkdown\<close> of the variant that writes the hashtags under the title and escapes
  the title (lines 569-614).
\<close>

definition generateMarkdown_inline ::
  "string list \<Rightarrow> int \<Rightarrow> KeepNote \<Rightarrow> string \<Rightarrow> string list \<Rightarrow> error + string" where
  "generateMarkdown_inline validLabels tzOffsetMinutes n content copiedAttachments =
     (case generateDisplayTitle tzOffsetMinutes n of
        Inl e \<Rightarrow> Inl e
      | Inr displayTitle \<Rightarrow>
          (case createdComment n of
             Inl e \<Rightarrow> Inl e
           | Inr created \<Rightarrow>
               (let escapedTitle = escapeInvalidHashtags validLabels displayTitle;
                    hashtags = generateHashtags n
                in Inr (trim (''# '' @ escapedTitle @ [newline, newline]
                     @ (if length hashtags > 0 then join '' '' hashtags @ [newline, newline] else [])
                     @ contentSection content
                     @ attachmentsSection copiedAttachments
                     @ created)))))"

section \<open>Properties of the character classes\<close>

lemma of_char_lowerChar:
  "(of_char (lowerChar c) :: nat) = (if isUpper c then of_char c + 32 else of_char c)"
proof (cases "isUpper c")
  case True
  then have "(of_char c :: nat) + 32 < 256"
    by (auto simp: isUpper_def Let_def)
  with True show ?thesis
    by (simp add: lowerChar_def of_char_of)
next
  case False
  then show ?thesis by (simp add: lowerChar_def)
qed

lemma char_eq_code: "(c = d) = ((of_char c :: nat) = of_char d)"
  by simp

lemma lowerChar_eq_slash [simp]: "(lowerChar c = CHR ''/'') = (c = CHR ''/'')"
  unfolding char_eq_code [of _ "CHR ''/''"] of_char_lowerChar
  by (auto simp: isUpper_def Let_def)

lemma lowerChar_eq_space [simp]: "(lowerChar c = CHR '' '') = (c = CHR '' '')"
  unfolding char_eq_code [of _ "CHR '' ''"] of_char_lowerChar
  by (auto simp: isUpper_def Let_def)

lemma lowerChar_eq_hyphen [simp]: "(lowerChar c = CHR ''-'') = (c = CHR ''-'')"
  unfolding char_eq_code [of _ "CHR ''-''"] of_char_lowerChar
  by (auto simp: isUpper_def Let_def)

lemma isSpace_lowerChar [simp]: "isSpace (lowerChar c) = isSpace c"
  unfolding isSpace_def
  unfolding char_eq_code [of _ "CHR 0x09"] char_eq_code [of _ "CHR 0x0A"]
    char_eq_code [of _ "CHR 0x0B"] char_eq_code [of _ "CHR 0x0C"] char_eq_code [of _ "CHR 0x0D"]
    char_eq_code [of _ "CHR '' ''"] char_eq_code [of _ "CHR 0xA0"] of_char_lowerChar
  by (auto simp: isUpper_def Let_def)

section \<open>Lower-casing commutes with the replacements\<close>

lemma toLowerCase_replaceSlash:
  "toLowerCase (replaceSlash sub s) = replaceSlash (toLowerCase sub) (toLowerCase s)"
  by (induction s) (auto simp: toLowerCase_def replaceSlash_def)

lemma toLowerCase_replaceDash:
  "toLowerCase (replaceDash sub s) = replaceDash (toLowerCase sub) (toLowerCase s)"
  by (induction sub s rule: replaceDash.induct) (auto simp: toLowerCase_def)

lemma toLowerCase_replaceSpaces:
  "toLowerCase (replaceSpaces s) = replaceSpaces (toLowerCase s)"
proof (induction s rule: replaceSpaces.induct)
  case 1
  show ?case by (simp add: toLowerCase_def)
next
  case (2 c cs)
  have "(isSpace \<circ> lowerChar) = isSpace"
    by (rule ext) simp
  with 2 show ?case
    by (auto simp: toLowerCase_def dropWhile_map)
qed

section \<open>Label normalization\<close>

text \<open>
  C1, as the specification states it, does not hold: the tag-path callback of
  \<open>generateMarkdown\<close> substitutes \<open>" & "\<close> for a slash, so the label
  \<open>"Reference - Linux/Tech"\<close> under the root \<open>"06-google-keep/"\<close> is not
  \<open>"06-google-keep/reference/linux-and-tech"\<close>; the callback of \<open>generateHashtags\<close>
  substitutes \<open>" and "\<close> but flattens the hierarchy separator to a hyphen.
\<close>

theorem labelTag_linux_tech_not_and:
  "labelTag ''06-google-keep/'' ''Reference - Linux/Tech''
     \<noteq> ''06-google-keep/'' @ ''reference/linux-and-tech''
   \<and> labelHashtag ''Reference - Linux/Tech'' \<noteq> ''#'' @ ''reference/linux-and-tech''"
  by code_simp

text \<open>
  C1, amended: for every namespace root, the tag path that \<open>generateMarkdown\<close> derives
  from \<open>"Reference - Linux/Tech"\<close> is the root followed by \<open>"reference/linux-&-tech"\<close>
  (slash replaced by \<open>" & "\<close> first, then \<open>" - "\<close> by \<open>"/"\<close>, white-space runs by single
  hyphens, all lower-cased); the hashtag that \<open>generateHashtags\<close> derives from it is
  \<open>"#reference-linux-and-tech"\<close>.
\<close>

theorem labelTag_linux_tech:
  "labelTag root ''Reference - Linux/Tech'' = root @ ''reference/linux-&-tech''
   \<and> labelHashtag ''Reference - Linux/Tech'' = ''#reference-linux-and-tech''"
proof -
  have "toLowerCase (replaceSpaces (replaceDash ''/''
          (replaceSlash '' & '' ''Reference - Linux/Tech''))) = ''reference/linux-&-tech''"
    by code_simp
  moreover have "labelHashtag ''Reference - Linux/Tech'' = ''#reference-linux-and-tech''"
    by code_simp
  ultimately show ?thesis
    by (simp add: labelTag_def)
qed

text \<open>
  C5, as the specification states it, does not hold: the label callbacks do not trim, so
  a leading run of white space becomes a leading hyphen. \<open>" Work"\<close> and \<open>"Work"\<close> are
  equal up to leading white space and get different tags.
\<close>

theorem labelTag_leading_space_differs:
  "trim '' Work'' = trim ''Work''
   \<and> labelTag ''06-google-keep/'' '' Work'' \<noteq> labelTag ''06-google-keep/'' ''Work''
   \<and> labelHashtag '' Work'' \<noteq> labelHashtag ''Work''"
  by code_simp

text \<open>
  C5, amended: label names of code units 0..255 (ASCII and Latin-1) that are identical
  except for letter case, that is whose \<open>toLowerCase()\<close> forms are equal, are mapped to
  the same tag path by \<open>generateMarkdown\<close>, for every namespace root, and to the same
  hashtag by \<open>generateHashtags\<close>. Nothing is stated for names with other characters,
  where lower-casing depends on the context, nor for names that differ in leading or
  trailing white space.
\<close>

theorem labelTag_ignores_case:
  "toLowerCase L1 = toLowerCase L2 \<Longrightarrow>
     labelTag root L1 = labelTag root L2 \<and> labelHashtag L1 = labelHashtag L2"
  by (simp add: labelTag_def labelHashtag_def toLowerCase_replaceSpaces
      toLowerCase_replaceDash toLowerCase_replaceSlash)

theorem labelTag_ignores_case_witness:
  "toLowerCase ''Work - Life'' = toLowerCase ''WORK - life''
   \<and> labelTag ''06-google-keep/'' ''Work - Life'' = labelTag ''06-google-keep/'' ''WORK - life''
   \<and> labelTag ''06-google-keep/'' ''Work - Life'' = ''06-google-keep/work/life''
   \<and> labelHashtag ''Work - Life'' = labelHashtag ''WORK - life''"
proof -
  have h: "toLowerCase ''Work - Life'' = toLowerCase ''WORK - life''"
    by code_simp
  have v: "labelTag ''06-google-keep/'' ''Work - Life'' = ''06-google-keep/work/life''"
    by code_simp
  from labelTag_ignores_case [OF h, of "''06-google-keep/''"] h v show ?thesis
    by simp
qed

section \<open>The hashtag escaper\<close>

subsection \<open>How the scanner steps\<close>

lemma not_isTagChar_hash [simp]: "\<not> isTagChar (CHR ''#'')"
  by (simp add: isTagChar_def isWordChar_def isAlnum_def)

lemma not_isTagChar_backslash [simp]: "\<not> isTagChar backslash"
  by (simp add: isTagChar_def isWordChar_def isAlnum_def)

lemma takeWhile_dropWhile_Nil [simp]: "takeWhile P (dropWhile P xs) = []"
  by (induction xs) auto

lemma dropWhile_takeWhile_Nil: "takeWhile P xs = [] \<Longrightarrow> dropWhile P xs = xs"
  by (cases xs) (auto split: if_splits)

lemma takeWhile_run_append:
  "takeWhile P ys = [] \<Longrightarrow> takeWhile P (takeWhile P xs @ ys) = takeWhile P xs"
  by (induction xs) auto

lemma dropWhile_run_append:
  "takeWhile P ys = [] \<Longrightarrow> dropWhile P (takeWhile P xs @ ys) = ys"
  by (induction xs) (auto simp: dropWhile_takeWhile_Nil)

lemma escapeInvalidHashtags_Nil [simp]: "escapeInvalidHashtags vl [] = []"
  by (simp add: escapeInvalidHashtags_def)

lemma escapeInvalidHashtags_plain:
  "\<not> (c = CHR ''#'' \<and> takeWhile isTagChar cs \<noteq> []) \<Longrightarrow>
     escapeInvalidHashtags vl (c # cs) = c # escapeInvalidHashtags vl cs"
  by (auto simp: escapeInvalidHashtags_def)

lemma escapeInvalidHashtags_match:
  "takeWhile isTagChar cs \<noteq> [] \<Longrightarrow>
     escapeInvalidHashtags vl (CHR ''#'' # cs) =
       escapeMatch vl (CHR ''#'' # takeWhile isTagChar cs)
         @ escapeInvalidHashtags vl (dropWhile isTagChar cs)"
  by (simp add: escapeInvalidHashtags_def)

text \<open>The output starts with a character of \<open>[\w-]\<close> only if the input does.\<close>

lemma takeWhile_escapeInvalidHashtags:
  "takeWhile isTagChar cs = [] \<Longrightarrow> takeWhile isTagChar (escapeInvalidHashtags vl cs) = []"
  by (cases cs) (auto simp: escapeInvalidHashtags_def escapeMatch_def split: if_splits)

lemma escapeInvalidHashtags_token:
  assumes "w \<noteq> []" and "\<forall>c\<in>set w. isTagChar c" and "takeWhile isTagChar x = []"
  shows "escapeInvalidHashtags vl (CHR ''#'' # w @ x) =
           escapeMatch vl (CHR ''#'' # w) @ escapeInvalidHashtags vl x"
proof -
  from assms(3) have "dropWhile isTagChar x = x"
    by (rule dropWhile_takeWhile_Nil)
  with assms have "takeWhile isTagChar (w @ x) = w" "dropWhile isTagChar (w @ x) = x"
    by (simp_all add: takeWhile_append2 dropWhile_append2)
  with assms(1) show ?thesis
    using escapeInvalidHashtags_match [of "w @ x" vl] by simp
qed

lemma escapeInvalidHashtags_append_plain:
  "\<not> hasHashtag p \<Longrightarrow> takeWhile isTagChar x = [] \<Longrightarrow>
     escapeInvalidHashtags vl (p @ x) = p @ escapeInvalidHashtags vl x"
  by (induction p rule: hasHashtag.induct) (auto simp: escapeInvalidHashtags_plain)

subsection \<open>Two passes\<close>

lemma escapeInvalidHashtags_escapeTwice:
  "escapeInvalidHashtags vl (escapeInvalidHashtags vl t) = replaceHashtags (escapeTwice vl) t"
proof (induction "escapeTwice vl" t rule: replaceHashtags.induct)
  case 1
  show ?case by simp
next
  case (2 c cs)
  show ?case
  proof (cases "c = CHR ''#'' \<and> takeWhile isTagChar cs \<noteq> []")
    case False
    then have "\<not> (c = CHR ''#'' \<and> takeWhile isTagChar (escapeInvalidHashtags vl cs) \<noteq> [])"
      by (auto simp: takeWhile_escapeInvalidHashtags)
    with False 2 show ?thesis
      by (auto simp: escapeInvalidHashtags_plain)
  next
    case True
    let ?w = "takeWhile isTagChar cs" and ?r = "dropWhile isTagChar cs"
    have tok: "escapeInvalidHashtags vl (CHR ''#'' # ?w @ escapeInvalidHashtags vl ?r) =
        escapeMatch vl (CHR ''#'' # ?w) @ escapeInvalidHashtags vl (escapeInvalidHashtags vl ?r)"
      using True
      by (intro escapeInvalidHashtags_token)
        (auto simp: takeWhile_escapeInvalidHashtags dest: set_takeWhileD)
    have IH: "escapeInvalidHashtags vl (escapeInvalidHashtags vl ?r) =
        replaceHashtags (escapeTwice vl) ?r"
      using 2 True by simp
    show ?thesis
    proof (cases "isValidLabel vl ?w")
      case valid: True
      with True tok IH show ?thesis
        by (simp add: escapeInvalidHashtags_match escapeMatch_def escapeTwice_def)
    next
      case invalid: False
      with True tok IH show ?thesis
        by (simp add: escapeInvalidHashtags_match escapeMatch_def escapeTwice_def
            escapeInvalidHashtags_plain)
    qed
  qed
qed

lemma escapeTwice_eq_once_iff:
  "(replaceHashtags (escapeTwice vl) t = escapeInvalidHashtags vl t) =
     (escapeInvalidHashtags vl t = t)"
proof (induction "escapeTwice vl" t rule: replaceHashtags.induct)
  case 1
  show ?case by simp
next
  case (2 c cs)
  show ?case
  proof (cases "c = CHR ''#'' \<and> takeWhile isTagChar cs \<noteq> []")
    case False
    with 2 show ?thesis
      by (auto simp: escapeInvalidHashtags_plain)
  next
    case True
    let ?w = "takeWhile isTagChar cs" and ?r = "dropWhile isTagChar cs"
    have IH: "(replaceHashtags (escapeTwice vl) ?r = escapeInvalidHashtags vl ?r) =
        (escapeInvalidHashtags vl ?r = ?r)"
      using 2 True by simp
    show ?thesis
    proof (cases "isValidLabel vl ?w")
      case valid: True
      have "(?w @ escapeInvalidHashtags vl ?r = cs) = (escapeInvalidHashtags vl ?r = ?r)"
        by (metis same_append_eq takeWhile_dropWhile_id)
      with True valid IH show ?thesis
        by (simp add: escapeInvalidHashtags_match escapeMatch_def escapeTwice_def)
    next
      case invalid: False
      with True show ?thesis
        by (simp add: escapeInvalidHashtags_match escapeMatch_def escapeTwice_def)
    qed
  qed
qed

text \<open>
  C2, as the specification states it, does not hold: the pattern has no look-behind, so
  the \<open>#a\<close> inside an escaped \<open>\#a\<close> matches again and a second pass adds a second
  backslash.
\<close>

theorem escapeInvalidHashtags_not_idempotent:
  "escapeInvalidHashtags [] (escapeInvalidHashtags [] ''#a'') \<noteq> escapeInvalidHashtags [] ''#a''"
  by code_simp

text \<open>
  C2, amended: applying the escaper twice prefixes every hashtag token that is not a
  valid label with two escape markers and leaves everything else as it is; the second
  application reproduces the first (\<open>escapeInvalid(escapeInvalid(t, s), s) = escapeInvalid(t, s)\<close>)
  exactly when the first changed nothing, that is when the text holds no invalid hashtag.
\<close>

theorem escapeInvalidHashtags_twice:
  "escapeInvalidHashtags vl (escapeInvalidHashtags vl t) = replaceHashtags (escapeTwice vl) t
   \<and> ((escapeInvalidHashtags vl (escapeInvalidHashtags vl t) = escapeInvalidHashtags vl t)
        = (escapeInvalidHashtags vl t = t))"
  by (simp add: escapeInvalidHashtags_escapeTwice escapeTwice_eq_once_iff)

subsection \<open>The membership test\<close>

lemma dropWhile_hyphen_replaceSpaces:
  "s = [] \<or> (\<not> isSpace (hd s) \<and> hd s \<noteq> CHR ''-'') \<Longrightarrow>
     dropWhile (\<lambda>d. d = CHR ''-'') (replaceSpaces s) = replaceSpaces s"
  by (cases s) auto

lemma collapseHyphens_replaceSpaces:
  "\<forall>c\<in>set s. c \<noteq> CHR ''-'' \<Longrightarrow> collapseHyphens (replaceSpaces s) = replaceSpaces s"
proof (induction s rule: replaceSpaces.induct)
  case 1
  show ?case by simp
next
  case (2 c cs)
  show ?case
  proof (cases "isSpace c")
    case True
    let ?r = "dropWhile isSpace cs"
    have "?r = [] \<or> (\<not> isSpace (hd ?r) \<and> hd ?r \<noteq> CHR ''-'')"
      using 2(3) by (metis hd_dropWhile hd_in_set list.set_intros(2) set_dropWhileD)
    then have "dropWhile (\<lambda>d. d = CHR ''-'') (replaceSpaces ?r) = replaceSpaces ?r"
      by (rule dropWhile_hyphen_replaceSpaces)
    moreover have "collapseHyphens (replaceSpaces ?r) = replaceSpaces ?r"
      using 2(1) [OF True] 2(3) by (auto dest: set_dropWhileD)
    ultimately show ?thesis using True by simp
  next
    case False
    with 2 show ?thesis by simp
  qed
qed

text \<open>
  C3, as the specification states it, does not hold: the escaper's transformation of a
  label is not the normalizer's steps 3 and 4. It also deletes every character outside
  \<open>[a-zA-Z0-9\s-]\<close> first and collapses runs of hyphens afterwards, so
  \<open>"Personal - Friends"\<close> is compared as \<open>personal-friends\<close>, while steps 3 and 4 give
  \<open>personal---friends\<close>.
\<close>

theorem labelAsHashtag_not_normalizer_steps:
  "labelAsHashtag ''Personal - Friends'' \<noteq> toLowerCase (replaceSpaces ''Personal - Friends'')"
  by code_simp

text \<open>
  C3, amended: a hashtag candidate (\<open>#\<close> followed by a non-empty run of \<open>[\w-]\<close>) is
  accepted exactly when its lower-cased name equals \<open>labelAsHashtag(label)\<close> for some
  label of the valid-tag set, and is escaped otherwise; \<open>labelAsHashtag\<close> coincides with
  the normalizer's steps 3 and 4 (white-space runs to hyphens, lower case) on every label
  that consists of ASCII letters, digits and white space only.
\<close>

theorem escapeInvalidHashtags_membership:
  "(w \<noteq> [] \<and> list_all isTagChar w \<longrightarrow>
      escapeInvalidHashtags vl (CHR ''#'' # w) =
        (if list_ex (\<lambda>label. labelAsHashtag label = toLowerCase w) vl
         then CHR ''#'' # w else backslash # CHR ''#'' # w))
   \<and> (list_all (\<lambda>c. isAlnum c \<or> isSpace c) label \<longrightarrow>
        labelAsHashtag label = toLowerCase (replaceSpaces label))"
proof (intro conjI impI)
  assume a: "w \<noteq> [] \<and> list_all isTagChar w"
  then have "escapeInvalidHashtags vl (CHR ''#'' # w @ []) =
      escapeMatch vl (CHR ''#'' # w) @ escapeInvalidHashtags vl []"
    by (intro escapeInvalidHashtags_token) (auto simp: list_all_iff)
  then show "escapeInvalidHashtags vl (CHR ''#'' # w) =
        (if list_ex (\<lambda>label. labelAsHashtag label = toLowerCase w) vl
         then CHR ''#'' # w else backslash # CHR ''#'' # w)"
    by (simp add: escapeMatch_def isValidLabel_def)
next
  assume a: "list_all (\<lambda>c. isAlnum c \<or> isSpace c) label"
  then have "filter (\<lambda>c. isAlnum c \<or> isSpace c \<or> c = CHR ''-'') label = label"
    by (auto simp: list_all_iff filter_id_conv)
  moreover have "\<forall>c\<in>set label. c \<noteq> CHR ''-''"
    using a by (auto simp: list_all_iff isAlnum_def isSpace_def)
  ultimately show "labelAsHashtag label = toLowerCase (replaceSpaces label)"
    by (simp add: labelAsHashtag_def collapseHyphens_replaceSpaces)
qed

theorem escapeInvalidHashtags_membership_witness:
  "list_all isTagChar ''personal'' \<and> list_all (\<lambda>c. isAlnum c \<or> isSpace c) ''Work Life''
   \<and> escapeInvalidHashtags [''Personal''] (CHR ''#'' # ''personal'') = CHR ''#'' # ''personal''
   \<and> labelAsHashtag ''Work Life'' = ''work-life''"
proof -
  have h1: "list_all isTagChar ''personal''"
    by code_simp
  have h2: "list_all (\<lambda>c. isAlnum c \<or> isSpace c) ''Work Life''"
    by code_simp
  have h3: "list_ex (\<lambda>label. labelAsHashtag label = toLowerCase ''personal'') [''Personal'']"
    by code_simp
  have h4: "toLowerCase (replaceSpaces ''Work Life'') = ''work-life''"
    by code_simp
  from escapeInvalidHashtags_membership [of "''personal''" "[''Personal'']" "''Work Life''"]
    h1 h2 h3 h4
  show ?thesis by simp
qed

subsection \<open>Failing closed\<close>

lemma escapeMatch_empty: "escapeMatch [] = (\<lambda>m. backslash # m)"
  by (rule ext) (simp add: escapeMatch_def isValidLabel_def)

lemma escapeInvalidHashtags_check_anything:
  "escapeInvalidHashtags vl ''Check #anything here'' =
     ''Check '' @ escapeMatch vl ''#anything'' @ '' here''"
  by (simp add: escapeInvalidHashtags_def isTagChar_def isWordChar_def isAlnum_def)

text \<open>
  C4: with an empty valid-tag set every match of the hashtag pattern is prefixed with the
  escape marker; in \<open>"Check #anything here"\<close> the token \<open>#anything\<close> becomes \<open>\#anything\<close>.
  With a set holding a label whose comparison form is \<open>anything\<close>, the same text passes
  through unchanged.
\<close>

theorem escapeInvalidHashtags_fail_closed:
  "escapeInvalidHashtags [] t = replaceHashtags (\<lambda>m. backslash # m) t
   \<and> escapeInvalidHashtags [] ''Check #anything here''
       = ''Check '' @ [backslash] @ ''#anything here''
   \<and> (l \<in> set vl \<and> labelAsHashtag l = ''anything'' \<longrightarrow>
        escapeInvalidHashtags vl ''Check #anything here'' = ''Check #anything here'')"
proof (intro conjI impI)
  show "escapeInvalidHashtags [] t = replaceHashtags (\<lambda>m. backslash # m) t"
    by (simp add: escapeInvalidHashtags_def escapeMatch_empty)
  show "escapeInvalidHashtags [] ''Check #anything here''
      = ''Check '' @ [backslash] @ ''#anything here''"
    by (simp add: escapeInvalidHashtags_check_anything escapeMatch_empty)
  assume a: "l \<in> set vl \<and> labelAsHashtag l = ''anything''"
  have "toLowerCase ''anything'' = ''anything''"
    by code_simp
  with a have "isValidLabel vl ''anything''"
    by (auto simp: isValidLabel_def list_ex_iff)
  then show "escapeInvalidHashtags vl ''Check #anything here'' = ''Check #anything here''"
    by (simp add: escapeInvalidHashtags_check_anything escapeMatch_def)
qed

theorem escapeInvalidHashtags_fail_closed_witness:
  "''Anything'' \<in> set [''Personal'', ''Anything''] \<and> labelAsHashtag ''Anything'' = ''anything''
   \<and> escapeInvalidHashtags [''Personal'', ''Anything''] ''Check #anything here''
       = ''Check #anything here''"
proof -
  have h: "labelAsHashtag ''Anything'' = ''anything''"
    by code_simp
  from escapeInvalidHashtags_fail_closed [of "[]" "''Anything''" "[''Personal'', ''Anything'']"] h
  show ?thesis by simp
qed

subsection \<open>The frame of the escaper\<close>

lemma filter_escapeInvalidHashtags:
  "filter (\<lambda>c. c \<noteq> backslash) (escapeInvalidHashtags vl t) = filter (\<lambda>c. c \<noteq> backslash) t"
proof (induction "escapeMatch vl" t rule: replaceHashtags.induct)
  case 1
  show ?case by simp
next
  case (2 c cs)
  show ?case
  proof (cases "c = CHR ''#'' \<and> takeWhile isTagChar cs \<noteq> []")
    case False
    with 2 show ?thesis
      by (auto simp: escapeInvalidHashtags_plain)
  next
    case True
    let ?w = "takeWhile isTagChar cs" and ?r = "dropWhile isTagChar cs"
    have "filter (\<lambda>c. c \<noteq> backslash) (?w @ ?r) = filter (\<lambda>c. c \<noteq> backslash) cs"
      by simp
    then have "filter (\<lambda>c. c \<noteq> backslash) ?w @ filter (\<lambda>c. c \<noteq> backslash) ?r
        = filter (\<lambda>c. c \<noteq> backslash) cs"
      by (simp only: filter_append)
    with True 2 show ?thesis
      by (simp add: escapeInvalidHashtags_match escapeMatch_def)
  qed
qed

text \<open>
  C8: the escaper changes nothing but matched hashtag tokens. A text without a match of
  \<open>#[\w-]+\<close> is returned as it is; and in a text that splits into a match-free prefix,
  a token (\<open>#\<close> and a maximal non-empty run of \<open>[\w-]\<close>) and a remainder, the prefix is
  copied, the token is kept or gets one backslash, and the scan resumes on the
  remainder directly after the token. Up to backslashes the output is the input. This
  holds for every valid-tag set.
\<close>

theorem escapeInvalidHashtags_frame:
  "(\<not> hasHashtag t \<longrightarrow> escapeInvalidHashtags vl t = t)
   \<and> (\<not> hasHashtag p \<and> w \<noteq> [] \<and> list_all isTagChar w \<and> (r = [] \<or> \<not> isTagChar (hd r)) \<longrightarrow>
        escapeInvalidHashtags vl (p @ CHR ''#'' # w @ r) =
          p @ (if isValidLabel vl w then CHR ''#'' # w else backslash # CHR ''#'' # w)
            @ escapeInvalidHashtags vl r)
   \<and> filter (\<lambda>c. c \<noteq> backslash) (escapeInvalidHashtags vl t) = filter (\<lambda>c. c \<noteq> backslash) t"
proof (intro conjI impI)
  show "filter (\<lambda>c. c \<noteq> backslash) (escapeInvalidHashtags vl t) = filter (\<lambda>c. c \<noteq> backslash) t"
    by (rule filter_escapeInvalidHashtags)
next
  assume "\<not> hasHashtag t"
  then show "escapeInvalidHashtags vl t = t"
    using escapeInvalidHashtags_append_plain [of t "[]" vl] by simp
next
  assume a: "\<not> hasHashtag p \<and> w \<noteq> [] \<and> list_all isTagChar w \<and> (r = [] \<or> \<not> isTagChar (hd r))"
  then have "escapeInvalidHashtags vl (p @ CHR ''#'' # w @ r) =
      p @ escapeInvalidHashtags vl (CHR ''#'' # w @ r)"
    by (intro escapeInvalidHashtags_append_plain) auto
  also have "escapeInvalidHashtags vl (CHR ''#'' # w @ r) =
      escapeMatch vl (CHR ''#'' # w) @ escapeInvalidHashtags vl r"
    using a by (intro escapeInvalidHashtags_token) (auto simp: list_all_iff takeWhile_eq_Nil_iff)
  finally show "escapeInvalidHashtags vl (p @ CHR ''#'' # w @ r) =
          p @ (if isValidLabel vl w then CHR ''#'' # w else backslash # CHR ''#'' # w)
            @ escapeInvalidHashtags vl r"
    by (simp add: escapeMatch_def)
qed

theorem escapeInvalidHashtags_frame_witness:
  "\<not> hasHashtag ''a # b'' \<and> escapeInvalidHashtags [] ''a # b'' = ''a # b''
   \<and> \<not> hasHashtag ''Check '' \<and> list_all isTagChar ''anything'' \<and> \<not> isTagChar (hd '' here'')
   \<and> escapeInvalidHashtags [] (''Check '' @ CHR ''#'' # ''anything'' @ '' here'') =
       ''Check '' @ (backslash # CHR ''#'' # ''anything'') @ '' here''"
proof -
  have h1: "\<not> hasHashtag ''a # b''"
    by code_simp
  have h2: "\<not> hasHashtag ''Check ''"
    by code_simp
  have h3: "list_all isTagChar ''anything''"
    by code_simp
  have h4: "\<not> isTagChar (hd '' here'')"
    by code_simp
  have h5: "\<not> isValidLabel [] ''anything''"
    by code_simp
  have h6: "\<not> hasHashtag '' here''"
    by code_simp
  from escapeInvalidHashtags_frame [of "''a # b''" "[]" "''Check ''" "''anything''" "'' here''"]
    escapeInvalidHashtags_frame [of "'' here''" "[]" "''Check ''" "''anything''" "'' here''"]
    h1 h2 h3 h4 h5 h6
  show ?thesis by simp
qed

subsection \<open>The content renderer ends with the escaper\<close>

lemma liveHashtags_escaped:
  "list_all (\<lambda>m. isValidLabel vl (drop 1 m)) (liveHashtags esc (escapeInvalidHashtags vl t))"
proof (induction "escapeMatch vl" t arbitrary: esc rule: replaceHashtags.induct)
  case 1
  show ?case by simp
next
  case (2 c cs)
  show ?case
  proof (cases "c = CHR ''#'' \<and> takeWhile isTagChar cs \<noteq> []")
    case False
    then have "\<not> (c = CHR ''#'' \<and> takeWhile isTagChar (escapeInvalidHashtags vl cs) \<noteq> [])"
      by (auto simp: takeWhile_escapeInvalidHashtags)
    with False 2 show ?thesis
      by (auto simp: escapeInvalidHashtags_plain)
  next
    case True
    let ?w = "takeWhile isTagChar cs" and ?r = "dropWhile isTagChar cs"
    have tw: "takeWhile isTagChar (?w @ escapeInvalidHashtags vl ?r) = ?w"
      by (simp add: takeWhile_run_append takeWhile_escapeInvalidHashtags)
    have dw: "dropWhile isTagChar (?w @ escapeInvalidHashtags vl ?r) = escapeInvalidHashtags vl ?r"
      by (simp add: dropWhile_run_append takeWhile_escapeInvalidHashtags)
    have IH: "\<And>e. list_all (\<lambda>m. isValidLabel vl (drop 1 m))
        (liveHashtags e (escapeInvalidHashtags vl ?r))"
      using 2 True by simp
    from True tw dw IH show ?thesis
      by (simp add: escapeInvalidHashtags_match escapeMatch_def)
  qed
qed

text \<open>
  C7: for every HTML document and every valid-tag set, what \<open>htmlToMarkdown\<close> returns is
  the escaper applied to the assembled (converted and trimmed) markdown text; hence every
  hashtag token of the result that no backslash precedes is a valid label.
\<close>

theorem htmlToMarkdown_escaped:
  "htmlToMarkdown turndown vl html = escapeInvalidHashtags vl (trim (turndown html))
   \<and> list_all (\<lambda>m. isValidLabel vl (drop 1 m))
       (liveHashtags False (htmlToMarkdown turndown vl html))"
  using liveHashtags_escaped [of vl False "trim (turndown html)"]
  by (simp add: htmlToMarkdown_def)

section \<open>Titles and file names\<close>

text \<open>
  C6: a note without a title, created at 2024-03-15T18:30:00Z (1710527400000000
  microseconds), should get the display title \<open>2024-03-15.18.30\<close>. The code takes the date
  from \<open>toISOString()\<close>, which is UTC, and the time from \<open>getHours()\<close> and \<open>getMinutes()\<close>,
  which are local: in a process whose time zone is ten hours ahead of UTC the title is
  \<open>2024-03-15.04.30\<close>, the UTC date joined with the local time of the next morning. Where
  the local offset is zero the title is the expected one, and the titled note gets
  \<open>2024-03-15 - Dinner Plans\<close> in every time zone.
\<close>

theorem generateDisplayTitle_local_time:
  "generateDisplayTitle 600
      \<lparr>title = None, createdTimestampUsec = Some ''1710527400000000'', labels = None, attachments = None\<rparr>
     = Inr ''2024-03-15.04.30''
   \<and> generateDisplayTitle 0
      \<lparr>title = None, createdTimestampUsec = Some ''1710527400000000'', labels = None, attachments = None\<rparr>
     = Inr ''2024-03-15.18.30''
   \<and> generateDisplayTitle tz
      \<lparr>title = Some ''Dinner Plans'', createdTimestampUsec = Some ''1710527400000000'', labels = None, attachments = None\<rparr>
     = Inr ''2024-03-15 - Dinner Plans''"
proof (intro conjI)
  let ?n = "\<lparr>title = Some ''Dinner Plans'', createdTimestampUsec = Some ''1710527400000000'', labels = None, attachments = None\<rparr>"
  show "generateDisplayTitle 600
      \<lparr>title = None, createdTimestampUsec = Some ''1710527400000000'', labels = None, attachments = None\<rparr>
     = Inr ''2024-03-15.04.30''"
    by code_simp
  show "generateDisplayTitle 0
      \<lparr>title = None, createdTimestampUsec = Some ''1710527400000000'', labels = None, attachments = None\<rparr>
     = Inr ''2024-03-15.18.30''"
    by code_simp
  have "datePrefix ?n = Inr ''2024-03-15''"
    by code_simp
  moreover have "hasTitle ?n"
    by code_simp
  moreover have "trim (titleText ?n) = ''Dinner Plans''"
    by code_simp
  ultimately show "generateDisplayTitle tz ?n = Inr ''2024-03-15 - Dinner Plans''"
    by (simp add: generateDisplayTitle_def)
qed

lemma trim_nonspace_id: "\<forall>c\<in>set s. \<not> isSpace c \<Longrightarrow> trim s = s"
proof -
  assume a: "\<forall>c\<in>set s. \<not> isSpace c"
  then have "dropWhile isSpace s = s"
    by (cases s) auto
  moreover from a have "dropWhile isSpace (rev s) = rev s"
    by (cases "rev s")
      (auto simp: hd_rev intro: last_in_set dest!: arg_cong [where f = set])
  ultimately show ?thesis
    by (simp add: trim_def)
qed

text \<open>
  C9: a title that is not empty and consists only of characters that are neither word
  characters, white space nor hyphens (such as \<open>"???"\<close>) passes the title test, loses
  every character in the clean-up, and gives the file name \<open>".md"\<close>, whatever the
  timestamp: there is no fall-back to the date-based or the fixed name.
\<close>

theorem generateFileName_only_special:
  assumes "title n = Some s" and "s \<noteq> []"
    and "\<forall>c\<in>set s. \<not> isWordChar c \<and> \<not> isSpace c \<and> c \<noteq> CHR ''-''"
  shows "generateFileName n = Inr ''.md''"
proof -
  from assms(3) have t: "trim s = s"
    by (intro trim_nonspace_id) auto
  with assms have h: "hasTitle n"
    by (simp add: hasTitle_def titleText_def)
  from assms(3) have "filter (\<lambda>c. isWordChar c \<or> isSpace c \<or> c = CHR ''-'') s = []"
    by (auto simp: filter_empty_conv)
  with h t assms(1) show ?thesis
    by (simp add: generateFileName_def titleText_def toLowerCase_def substring0_def)
qed

theorem generateFileName_only_special_witness:
  "title \<lparr>title = Some ''???'', createdTimestampUsec = Some ''1710527400000000'', labels = None, attachments = None\<rparr>
     = Some ''???''
   \<and> (''???'' :: string) \<noteq> []
   \<and> list_all (\<lambda>c. \<not> isWordChar c \<and> \<not> isSpace c \<and> c \<noteq> CHR ''-'') ''???''
   \<and> generateFileName
        \<lparr>title = Some ''???'', createdTimestampUsec = Some ''1710527400000000'', labels = None, attachments = None\<rparr>
      = Inr ''.md''"
proof -
  let ?n = "\<lparr>title = Some ''???'', createdTimestampUsec = Some ''1710527400000000'', labels = None, attachments = None\<rparr>"
  have h1: "title ?n = Some ''???''"
    by simp
  have h2: "(''???'' :: string) \<noteq> []"
    by simp
  have h3: "list_all (\<lambda>c. \<not> isWordChar c \<and> \<not> isSpace c \<and> c \<noteq> CHR ''-'') ''???''"
    by code_simp
  then have h4: "\<forall>c\<in>set ''???''. \<not> isWordChar c \<and> \<not> isSpace c \<and> c \<noteq> CHR ''-''"
    unfolding list_all_iff .
  from generateFileName_only_special [OF h1 h2 h4] h1 h2 h3 show ?thesis
    by simp
qed

section \<open>The assembled document is trimmed\<close>

lemma trim_Cons_nonspace:
  "\<not> isSpace c \<Longrightarrow> trim (c # s) = c # rev (dropWhile isSpace (rev s))"
  by (simp add: trim_def dropWhile_append3)

lemma last_trim: "trim s \<noteq> [] \<Longrightarrow> \<not> isSpace (last (trim s))"
proof -
  assume a: "trim s \<noteq> []"
  let ?x = "dropWhile isSpace (rev (dropWhile isSpace s))"
  from a have "?x \<noteq> []"
    by (simp add: trim_def)
  then have "\<not> isSpace (hd ?x)"
    by (rule hd_dropWhile)
  moreover have "last (trim s) = hd ?x"
    using \<open>?x \<noteq> []\<close> by (simp add: trim_def last_rev)
  ultimately show ?thesis by simp
qed

lemma trimmed_document:
  assumes "\<not> isSpace c" and "doc = trim (c # s)"
  shows "doc \<noteq> [] \<and> \<not> isSpace (hd doc) \<and> \<not> isSpace (last doc) \<and> last doc \<noteq> newline"
proof -
  have d: "doc = c # rev (dropWhile isSpace (rev s))"
    using assms by (simp add: trim_Cons_nonspace)
  then have ne: "trim (c # s) \<noteq> []"
    using assms by simp
  have l: "\<not> isSpace (last doc)"
    using last_trim [OF ne] assms(2) by simp
  have "isSpace newline"
    by (simp add: isSpace_def)
  with l have "last doc \<noteq> newline"
    by auto
  moreover from d have "doc \<noteq> []" and "hd doc = c"
    by simp_all
  ultimately show ?thesis
    using l assms(1) by simp
qed

lemma generateMarkdown_returns:
  "(\<exists>doc. generateMarkdown tz n content copied = Inr doc) =
     (timestampText n = [] \<or> createdDate n \<noteq> None)"
  by (auto simp: generateMarkdown_def generateDisplayTitle_def datePrefix_def createdComment_def
      Let_def split: sum.splits option.splits if_splits)

lemma generateMarkdown_inline_returns:
  "(\<exists>doc. generateMarkdown_inline vl tz n content copied = Inr doc) =
     (timestampText n = [] \<or> createdDate n \<noteq> None)"
  by (auto simp: generateMarkdown_inline_def generateDisplayTitle_def datePrefix_def
      createdComment_def Let_def split: sum.splits option.splits if_splits)

lemma generateMarkdown_trimmed:
  assumes "generateMarkdown tz n content copied = Inr doc"
  shows "doc \<noteq> [] \<and> \<not> isSpace (hd doc) \<and> \<not> isSpace (last doc) \<and> last doc \<noteq> newline"
proof -
  from assms obtain s where "doc = trim (CHR ''-'' # s)"
    by (auto simp: generateMarkdown_def split: sum.splits)
  moreover have "\<not> isSpace (CHR ''-'')"
    by (simp add: isSpace_def)
  ultimately show ?thesis
    by (rule trimmed_document [rotated])
qed

lemma generateMarkdown_inline_trimmed:
  assumes "generateMarkdown_inline vl tz n content copied = Inr doc"
  shows "doc \<noteq> [] \<and> \<not> isSpace (hd doc) \<and> \<not> isSpace (last doc) \<and> last doc \<noteq> newline"
proof -
  from assms obtain s where "doc = trim (CHR ''#'' # s)"
    by (auto simp: generateMarkdown_inline_def Let_def split: sum.splits)
  moreover have "\<not> isSpace (CHR ''#'')"
    by (simp add: isSpace_def)
  ultimately show ?thesis
    by (rule trimmed_document [rotated])
qed

text \<open>
  C10: for every note record, rendered body and list of attachment names (and every time
  zone and valid-tag set), a document that \<open>generateMarkdown\<close> returns, in either variant,
  is not empty and has no white space at its start or at its end; in particular it does
  not end with a newline, although every section is appended with one. A document is
  returned unless the note has a non-empty timestamp that is not a valid date, in which
  case \<open>toISOString()\<close> throws.
\<close>

theorem generateMarkdown_no_outer_space:
  "(generateMarkdown tz n content copied = Inr doc \<longrightarrow>
      doc \<noteq> [] \<and> \<not> isSpace (hd doc) \<and> \<not> isSpace (last doc) \<and> last doc \<noteq> newline)
   \<and> (generateMarkdown_inline vl tz n content copied = Inr doc \<longrightarrow>
      doc \<noteq> [] \<and> \<not> isSpace (hd doc) \<and> \<not> isSpace (last doc) \<and> last doc \<noteq> newline)
   \<and> (\<exists>d. generateMarkdown tz n content copied = Inr d) =
       (timestampText n = [] \<or> createdDate n \<noteq> None)
   \<and> (\<exists>d. generateMarkdown_inline vl tz n content copied = Inr d) =
       (timestampText n = [] \<or> createdDate n \<noteq> None)"
  using generateMarkdown_trimmed generateMarkdown_inline_trimmed
    generateMarkdown_returns [of tz n content copied]
    generateMarkdown_inline_returns [of vl tz n content copied]
  by blast

theorem generateMarkdown_no_outer_space_witness:
  "(\<exists>doc. doc = ''---'' @ [newline] @ ''tags:'' @ [newline] @ ''  - 06-google-keep'' @ [newline]
        @ ''---'' @ [newline, newline] @ ''# 2024-03-15 - Dinner Plans'' @ [newline, newline]
        @ ''Hello'' @ [newline, newline] @ ''<!-- Created: 2024-03-15T18:30:00.000Z -->''
      \<and> generateMarkdown 0
          \<lparr>title = Some ''Dinner Plans'', createdTimestampUsec = Some ''1710527400000000'', labels = None, attachments = None\<rparr>
          ''Hello'' [] = Inr doc
      \<and> doc \<noteq> [] \<and> \<not> isSpace (hd doc) \<and> \<not> isSpace (last doc) \<and> last doc \<noteq> newline)
   \<and> (\<exists>doc. doc = ''# 2024-03-15 - Dinner Plans'' @ [newline, newline] @ ''#06-google-keep''
        @ [newline, newline] @ ''Hello'' @ [newline, newline]
        @ ''<!-- Created: 2024-03-15T18:30:00.000Z -->''
      \<and> generateMarkdown_inline [] 0
          \<lparr>title = Some ''Dinner Plans'', createdTimestampUsec = Some ''1710527400000000'', labels = None, attachments = None\<rparr>
          ''Hello'' [] = Inr doc
      \<and> doc \<noteq> [] \<and> \<not> isSpace (hd doc) \<and> \<not> isSpace (last doc) \<and> last doc \<noteq> newline)"
proof -
  let ?n = "\<lparr>title = Some ''Dinner Plans'', createdTimestampUsec = Some ''1710527400000000'', labels = None, attachments = None\<rparr>"
  let ?d1 = "''---'' @ [newline] @ ''tags:'' @ [newline] @ ''  - 06-google-keep'' @ [newline]
        @ ''---'' @ [newline, newline] @ ''# 2024-03-15 - Dinner Plans'' @ [newline, newline]
        @ ''Hello'' @ [newline, newline] @ ''<!-- Created: 2024-03-15T18:30:00.000Z -->''"
  let ?d2 = "''# 2024-03-15 - Dinner Plans'' @ [newline, newline] @ ''#06-google-keep''
        @ [newline, newline] @ ''Hello'' @ [newline, newline]
        @ ''<!-- Created: 2024-03-15T18:30:00.000Z -->''"
  have h1: "generateMarkdown 0 ?n ''Hello'' [] = Inr ?d1"
    by code_simp
  have h2: "generateMarkdown_inline [] 0 ?n ''Hello'' [] = Inr ?d2"
    by code_simp
  from generateMarkdown_no_outer_space [of 0 ?n "''Hello''" "[]" ?d1 "[]"] h1
  have a: "?d1 \<noteq> [] \<and> \<not> isSpace (hd ?d1) \<and> \<not> isSpace (last ?d1) \<and> last ?d1 \<noteq> newline"
    by blast
  from generateMarkdown_no_outer_space [of 0 ?n "''Hello''" "[]" ?d2 "[]"] h2
  have b: "?d2 \<noteq> [] \<and> \<not> isSpace (hd ?d2) \<and> \<not> isSpace (last ?d2) \<and> last ?d2 \<noteq> newline"
    by blast
  from h1 h2 a b show ?thesis
    by blast
qed

end
